theory Spec2Isabelle
  imports Main "HOL-Library.AList"
begin

section \<open>JavaScript values\<close>

text \<open>
  The client of \<^verbatim>\<open>mcp-multi-client/src/index.ts\<close> handles untyped data in three
  places: the parsed configuration document, the input schema of a tool and the result of
  a remote tool call. They are values of the following type. Numbers are integers here
  (only their truthiness is ever inspected), strings are lists of 8-bit code units, and
  an object is the list of its own properties, looked up by \<open>map_of\<close>.
\<close>

datatype jsval =
    JUndefined
  | JNull
  | JBool bool
  | JNum int
  | JStr string
  | JArr "jsval list"
  | JObj "(string \<times> jsval) list"

text \<open>What \<^verbatim>\<open>if (v)\<close>, \<^verbatim>\<open>v && ...\<close> and \<^verbatim>\<open>v || ...\<close> test.\<close>

fun truthy :: "jsval \<Rightarrow> bool" where
  "truthy JUndefined = False"
| "truthy JNull = False"
| "truthy (JBool b) = b"
| "truthy (JNum n) = (n \<noteq> 0)"
| "truthy (JStr s) = (s \<noteq> [])"
| "truthy (JArr xs) = True"
| "truthy (JObj kvs) = True"

text \<open>
  Property access \<^verbatim>\<open>v.k\<close>: a TypeError on \<^verbatim>\<open>undefined\<close> and \<^verbatim>\<open>null\<close>
  (\<open>Inl\<close> carries the message of the error), the own property of an object, the length
  of an array or string, and \<^verbatim>\<open>undefined\<close> otherwise.
\<close>

fun getprop :: "jsval \<Rightarrow> string \<Rightarrow> string + jsval" where
  "getprop JUndefined k =
     Inl (''Cannot read properties of undefined (reading '' @ [CHR 0x27] @ k @ [CHR 0x27] @ '')'')"
| "getprop JNull k =
     Inl (''Cannot read properties of null (reading '' @ [CHR 0x27] @ k @ [CHR 0x27] @ '')'')"
| "getprop (JObj kvs) k = Inr (case map_of kvs k of None \<Rightarrow> JUndefined | Some v \<Rightarrow> v)"
| "getprop (JArr xs) k = Inr (if k = ''length'' then JNum (int (length xs)) else JUndefined)"
| "getprop (JStr s) k = Inr (if k = ''length'' then JNum (int (length s)) else JUndefined)"
| "getprop (JBool b) k = Inr JUndefined"
| "getprop (JNum n) k = Inr JUndefined"

text \<open>\<^verbatim>\<open>typeof v === 'object'\<close>.\<close>

fun typeof_object :: "jsval \<Rightarrow> bool" where
  "typeof_object JNull = True"
| "typeof_object (JArr xs) = True"
| "typeof_object (JObj kvs) = True"
| "typeof_object v = False"

section \<open>Data of the client\<close>

text \<open>
  A JavaScript \<^verbatim>\<open>Map\<close> keeps its keys in insertion order and \<^verbatim>\<open>set\<close> on a key that
  is present replaces the value in place: it is an association list with
  \<open>AList.update\<close> for \<^verbatim>\<open>set\<close>, \<open>AList.delete\<close> for \<^verbatim>\<open>delete\<close>, \<open>map_of\<close> for
  \<^verbatim>\<open>get\<close> and \<open>length\<close> for \<^verbatim>\<open>size\<close>.
\<close>

record ToolInfo =
  name :: string
  description :: "string option"
  inputSchema :: jsval

record Tool =
  tool_name :: string
  tool_description :: string
  input_schema :: jsval

record ToolResultPart =
  tool_use_id :: string
  content :: string
  is_error :: bool

text \<open>
  A block of a model response: text, a \<^verbatim>\<open>tool_use\<close> block with its id, name and input
  (\<open>JUndefined\<close> when the optional input is absent), or a block of another type.
\<close>

datatype ContentBlock =
    TextBlock string
  | ToolUseBlock string string jsval
  | OtherBlock string

datatype Role = User | Assistant

datatype MessageContent =
    QueryText string
  | Blocks "ContentBlock list"
  | ToolResults "ToolResultPart list"

type_synonym MessageParam = "Role \<times> MessageContent"

record request =
  model :: string
  max_tokens :: nat
  messages :: "MessageParam list"
  tools :: "Tool list option"

record response =
  response_content :: "ContentBlock list"
  stop_reason :: string

record ServerConfig =
  command :: string
  args :: "string list"

text \<open>\<open>Object.entries\<close> of the \<^verbatim>\<open>mcpServers\<close> field of the configuration.\<close>

type_synonym McpServerConfig = "(string \<times> ServerConfig) list"

text \<open>The client object created for a server, and the options of its transport.\<close>

datatype Client = Client string

type_synonym StdioClientTransportOptions = ServerConfig

text \<open>
  What the process does that can be observed from outside, in the order it happens: the
  console lines the properties below are about, each call of the model backend with its
  request, and each remote tool call with the client, the tool name and the arguments.
\<close>

datatype event =
    WarnDuplicate string string string
  | WarnSchema string string
  | ErrConnect string string
  | LogExecuting string string
  | ErrNoClient string
  | WarnStopReason
  | CallTool Client string jsval
  | ErrCallTool string string string
  | MessagesCreate request
  | ErrQuery string
  | LogAnswer string
  | ErrUnhandled string
  | CloseClient string

record MCPMultiClient =
  serverConfigs :: "McpServerConfig option"
  mcpClients :: "(string \<times> Client) list"
  transports :: "(string \<times> StdioClientTransportOptions) list"
  allTools :: "Tool list"
  toolToServerMap :: "(string \<times> string) list"
  trace :: "event list"

text \<open>The object after the constructor has run with a configuration loaded.\<close>

definition new_client :: "McpServerConfig option \<Rightarrow> MCPMultiClient" where
  "new_client cfg =
     \<lparr>serverConfigs = cfg, mcpClients = [], transports = [], allTools = [],
      toolToServerMap = [], trace = []\<rparr>"

definition emit :: "event \<Rightarrow> MCPMultiClient \<Rightarrow> MCPMultiClient" where
  "emit e st = st\<lparr>trace := trace st @ [e]\<rparr>"

text \<open>How a call ends: it returns, it throws, or \<^verbatim>\<open>process.exit\<close> ends the process.\<close>

datatype 'a outcome = Return 'a | Throw string | Exit nat

section \<open>connectToServers\<close>

text \<open>
  The callback of \<^verbatim>\<open>toolsResult.tools.map\<close> (lines 122 to 149): warn when the name
  already has an owner, store the new owner, convert the schema and the description.
\<close>

definition convert_schema :: "jsval \<Rightarrow> jsval" where
  "convert_schema s =
     (if truthy s \<and> typeof_object s then s else JObj [(''type'', JStr ''object''), (''properties'', JObj [])])"

definition convert_description :: "string \<Rightarrow> ToolInfo \<Rightarrow> string" where
  "convert_description serverName mcpTool =
     (case description mcpTool of
        None \<Rightarrow> ''Tool '' @ name mcpTool @ '' from server '' @ serverName
      | Some d \<Rightarrow> if d = [] then ''Tool '' @ name mcpTool @ '' from server '' @ serverName else d)"

definition register_tool :: "string \<Rightarrow> ToolInfo \<Rightarrow> MCPMultiClient \<Rightarrow> Tool \<times> MCPMultiClient" where
  "register_tool serverName mcpTool st =
     (let st1 = (case map_of (toolToServerMap st) (name mcpTool) of
                   Some prev \<Rightarrow> emit (WarnDuplicate (name mcpTool) prev serverName) st
                 | None \<Rightarrow> st);
          st2 = st1\<lparr>toolToServerMap := AList.update (name mcpTool) serverName (toolToServerMap st1)\<rparr>;
          st3 = (if truthy (inputSchema mcpTool) \<and> \<not> typeof_object (inputSchema mcpTool)
                 then emit (WarnSchema (name mcpTool) serverName) st2 else st2)
      in (\<lparr>tool_name = name mcpTool,
           tool_description = convert_description serverName mcpTool,
           input_schema = convert_schema (inputSchema mcpTool)\<rparr>, st3))"

text \<open>\<^verbatim>\<open>Array.prototype.map\<close> with that callback, left to right.\<close>

fun register_tools :: "string \<Rightarrow> ToolInfo list \<Rightarrow> MCPMultiClient \<Rightarrow> Tool list \<times> MCPMultiClient" where
  "register_tools serverName [] st = ([], st)"
| "register_tools serverName (t # ts) st =
     (case register_tool serverName t st of
        (tool, st1) \<Rightarrow> (case register_tools serverName ts st1 of
                         (rest, st2) \<Rightarrow> (tool # rest, st2)))"

text \<open>
  How the attempt for one server ends: \<^verbatim>\<open>client.connect\<close> rejects, \<^verbatim>\<open>client.listTools\<close>
  rejects, the catalog arrives and is registered but \<^verbatim>\<open>this.allTools.push(...serverTools)\<close>
  throws (a RangeError: the engine refuses a call with as many arguments as a very large
  catalog has tools; which catalogs are too large is the engine's to say, so it is part of
  the outcome), or the catalog arrives and the attempt runs to its end.
\<close>

datatype attempt =
    ConnectFailed string
  | ListToolsFailed string
  | PushFailed "ToolInfo list" string
  | Ready "ToolInfo list"

fun attempt_ready :: "attempt \<Rightarrow> bool" where
  "attempt_ready (Ready ts) = True"
| "attempt_ready a = False"

text \<open>The catalog an attempt registers (line 128), and the tools it pushes (line 151).\<close>

fun registered_tools :: "attempt \<Rightarrow> ToolInfo list" where
  "registered_tools (Ready ts) = ts"
| "registered_tools (PushFailed ts e) = ts"
| "registered_tools a = []"

fun pushed_tools :: "attempt \<Rightarrow> ToolInfo list" where
  "pushed_tools (Ready ts) = ts"
| "pushed_tools a = []"

text \<open>
  The part of one attempt that runs once its awaits are over (lines 121 to 158). It runs
  without interruption: on success the catalog is registered and appended to
  \<open>allTools\<close>; on failure the \<^verbatim>\<open>catch\<close> block deletes the client and the transport,
  and nothing else: when the push has thrown, the owners stored at line 128 stay in
  \<open>toolToServerMap\<close>.
\<close>

fun settle :: "string \<times> attempt \<Rightarrow> MCPMultiClient \<Rightarrow> MCPMultiClient" where
  "settle (serverName, Ready ts) st =
     (case register_tools serverName ts st of
        (serverTools, st1) \<Rightarrow> st1\<lparr>allTools := allTools st1 @ serverTools\<rparr>)"
| "settle (serverName, ConnectFailed e) st =
     (emit (ErrConnect serverName e) st)
       \<lparr>mcpClients := AList.delete serverName (mcpClients st),
        transports := AList.delete serverName (transports st)\<rparr>"
| "settle (serverName, ListToolsFailed e) st =
     (emit (ErrConnect serverName e) st)
       \<lparr>mcpClients := AList.delete serverName (mcpClients st),
        transports := AList.delete serverName (transports st)\<rparr>"
| "settle (serverName, PushFailed ts e) st =
     (case register_tools serverName ts st of
        (serverTools, st1) \<Rightarrow>
          (emit (ErrConnect serverName e) st1)
            \<lparr>mcpClients := AList.delete serverName (mcpClients st1),
             transports := AList.delete serverName (transports st1)\<rparr>)"

text \<open>The body of the \<^verbatim>\<open>for\<close> loop up to the first await (lines 98 to 111).\<close>

fun start_attempts :: "McpServerConfig \<Rightarrow> MCPMultiClient \<Rightarrow> MCPMultiClient" where
  "start_attempts [] st = st"
| "start_attempts ((serverName, config) # rest) st =
     start_attempts rest
       (st\<lparr>transports := AList.update serverName config (transports st),
           mcpClients := AList.update serverName (Client serverName) (mcpClients st)\<rparr>)"

fun settle_all :: "(string \<times> attempt) list \<Rightarrow> MCPMultiClient \<Rightarrow> MCPMultiClient" where
  "settle_all [] st = st"
| "settle_all (a # as) st = settle_all as (settle a st)"

text \<open>
  \<^verbatim>\<open>connectToServers\<close>. The attempts run concurrently on one thread, so the state
  changes in an order the scheduler chooses: \<open>sched\<close> lists the servers in the order their
  attempts settle, each with the way it ended. A schedule of a configuration names every
  configured server once.
\<close>

definition connectToServers ::
  "(string \<times> attempt) list \<Rightarrow> MCPMultiClient \<Rightarrow> unit outcome \<times> MCPMultiClient" where
  "connectToServers sched st =
     (case serverConfigs st of
        None \<Rightarrow> (Throw ''Configuration not loaded. Call loadConfig first.'', st)
      | Some cfg \<Rightarrow>
          (let st1 = settle_all sched (start_attempts cfg st)
           in if length (mcpClients st1) = 0 then (Exit 1, st1) else (Return (), st1)))"

definition schedule_of :: "McpServerConfig \<Rightarrow> (string \<times> attempt) list \<Rightarrow> bool" where
  "schedule_of cfg sched \<longleftrightarrow>
     distinct (map fst cfg) \<and> distinct (map fst sched) \<and> set (map fst sched) = set (map fst cfg)"

section \<open>Strings\<close>

text \<open>
  \<^verbatim>\<open>Array.prototype.join\<close>, \<^verbatim>\<open>String.prototype.trim\<close> (the white space and line
  terminators among the 8-bit code units: tab, line feed, vertical tab, form feed,
  carriage return, space and no-break space) and \<^verbatim>\<open>toLowerCase\<close> on the capital letters
  among them.
\<close>

fun join :: "string \<Rightarrow> string list \<Rightarrow> string" where
  "join sep [] = []"
| "join sep [x] = x"
| "join sep (x # y # ys) = x @ sep @ join sep (y # ys)"

definition newline :: string where
  "newline = [CHR 0x0A]"

definition is_space :: "char \<Rightarrow> bool" where
  "is_space c \<longleftrightarrow> c \<in> set [CHR 0x09, CHR 0x0A, CHR 0x0B, CHR 0x0C, CHR 0x0D, CHR 0x20, CHR 0xA0]"

definition trim :: "string \<Rightarrow> string" where
  "trim s = rev (dropWhile is_space (rev (dropWhile is_space s)))"

definition lower_char :: "char \<Rightarrow> char" where
  "lower_char c =
     (let n = (of_char c :: nat)
      in if (65 \<le> n \<and> n \<le> 90) \<or> (192 \<le> n \<and> n \<le> 222 \<and> n \<noteq> 215) then char_of (n + 32) else c)"

definition toLowerCase :: "string \<Rightarrow> string" where
  "toLowerCase s = map lower_char s"

definition quoted :: "string \<Rightarrow> string" where
  "quoted s = CHR 0x22 # s @ [CHR 0x22]"

section \<open>processQuery\<close>

text \<open>
  The collaborators of a query: the model backend (\<^verbatim>\<open>anthropic.messages.create\<close>), the
  tool servers (\<^verbatim>\<open>client.callTool\<close>) and \<^verbatim>\<open>JSON.stringify\<close>. The first two answer from
  everything that has happened so far, and \<open>Inl\<close> is a rejected promise with the message
  of its error.
\<close>

record env =
  messages_create :: "event list \<Rightarrow> request \<Rightarrow> string + response"
  callTool :: "event list \<Rightarrow> Client \<Rightarrow> string \<Rightarrow> jsval \<Rightarrow> string + jsval"
  stringify :: "jsval \<Rightarrow> string"

fun isArray :: "jsval \<Rightarrow> bool" where
  "isArray (JArr xs) = True"
| "isArray v = False"

fun elements :: "jsval \<Rightarrow> jsval list" where
  "elements (JArr xs) = xs"
| "elements v = []"

text \<open>\<^verbatim>\<open>result.content.find((c) => c.type === 'text')\<close>; reading \<^verbatim>\<open>c.type\<close> may throw.\<close>

fun find_text :: "jsval list \<Rightarrow> string + jsval option" where
  "find_text [] = Inr None"
| "find_text (c # cs) =
     (case getprop c ''type'' of
        Inl e \<Rightarrow> Inl e
      | Inr t \<Rightarrow> if t = JStr ''text'' then Inr (Some c) else find_text cs)"

text \<open>\<^verbatim>\<open>textBlock && typeof textBlock.text === 'string'\<close>, with the text when it holds.\<close>

definition text_of_block :: "jsval option \<Rightarrow> string option" where
  "text_of_block textBlock =
     (case textBlock of
        None \<Rightarrow> None
      | Some b \<Rightarrow> if truthy b then (case getprop b ''text'' of Inr (JStr s) \<Rightarrow> Some s | _ \<Rightarrow> None) else None)"

text \<open>
  Lines 269 to 291, from the result of \<^verbatim>\<open>callTool\<close> to the output text and the error
  flag of the tool result. \<open>Inl\<close> is an exception, which the \<^verbatim>\<open>catch\<close> of line 292 takes.
  Reading \<^verbatim>\<open>result.error\<close> throws only where reading \<^verbatim>\<open>result.content\<close> has thrown
  before, so both are read first.
\<close>

definition format_result :: "env \<Rightarrow> string \<Rightarrow> jsval \<Rightarrow> string + string \<times> bool" where
  "format_result e toolName result =
     (case getprop result ''content'' of
        Inl err \<Rightarrow> Inl err
      | Inr c \<Rightarrow>
          (case getprop result ''error'' of
             Inl err \<Rightarrow> Inl err
           | Inr flag \<Rightarrow>
               if truthy c \<and> isArray c \<and> 0 < length (elements c) then
                 (case find_text (elements c) of
                    Inl err \<Rightarrow> Inl err
                  | Inr textBlock \<Rightarrow>
                      (case text_of_block textBlock of
                         Some s \<Rightarrow> Inr (s, flag = JBool True)
                       | None \<Rightarrow> Inr (stringify e c, flag = JBool True)))
               else if truthy flag then Inr (''Tool '' @ toolName @ '' reported an error.'', flag = JBool True)
               else Inr (''Tool '' @ toolName @ '' executed.'', flag = JBool True)))"

type_synonym ToolUse = "string \<times> string \<times> jsval"

text \<open>
  One turn of the loop over the tool calls (lines 236 to 300): resolve the owner and its
  client, call the tool, and build the tool result. An empty server name is falsy in
  line 244.
\<close>

definition invoke :: "env \<Rightarrow> ToolUse \<Rightarrow> MCPMultiClient \<Rightarrow> ToolResultPart \<times> MCPMultiClient" where
  "invoke e toolCall st =
     (case toolCall of (toolUseId, toolName, input) \<Rightarrow>
        (let toolInput = (if truthy input then input else JObj []);
             st1 = emit (LogExecuting toolName toolUseId) st;
             client = (case map_of (toolToServerMap st1) toolName of
                         None \<Rightarrow> None
                       | Some serverName \<Rightarrow>
                           if serverName = [] then None else map_of (mcpClients st1) serverName)
         in case client of
              None \<Rightarrow>
                (\<lparr>tool_use_id = toolUseId,
                  content = ''Error: Tool '' @ quoted toolName
                              @ '' is not available or its server is disconnected.'',
                  is_error = True\<rparr>,
                 emit (ErrNoClient toolName) st1)
            | Some c \<Rightarrow>
                (let st2 = emit (CallTool c toolName toolInput) st1
                 in case (case callTool e (trace st1) c toolName toolInput of
                            Inl err \<Rightarrow> Inl err
                          | Inr result \<Rightarrow> format_result e toolName result) of
                      Inl err \<Rightarrow>
                        (\<lparr>tool_use_id = toolUseId,
                          content = ''Error executing tool '' @ toolName @ '': '' @ err,
                          is_error = True\<rparr>,
                         emit (ErrCallTool toolName (case c of Client s \<Rightarrow> s) err) st2)
                    | Inr (resultOutput, flag) \<Rightarrow>
                        (\<lparr>tool_use_id = toolUseId, content = resultOutput, is_error = flag\<rparr>,
                         st2))))"

text \<open>The loop itself: the tool calls one after the other, each result pushed in turn.\<close>

fun run_tool_calls :: "env \<Rightarrow> ToolUse list \<Rightarrow> MCPMultiClient \<Rightarrow> ToolResultPart list \<times> MCPMultiClient" where
  "run_tool_calls e [] st = ([], st)"
| "run_tool_calls e (toolCall # rest) st =
     (case invoke e toolCall st of
        (r, st1) \<Rightarrow> (case run_tool_calls e rest st1 of (rs, st2) \<Rightarrow> (r # rs, st2)))"

text \<open>The \<^verbatim>\<open>forEach\<close> of lines 201 to 207, and the filter of lines 320 to 322.\<close>

fun toolCalls_of :: "ContentBlock list \<Rightarrow> ToolUse list" where
  "toolCalls_of [] = []"
| "toolCalls_of (ToolUseBlock i n inp # bs) = (i, n, inp) # toolCalls_of bs"
| "toolCalls_of (b # bs) = toolCalls_of bs"

fun textContents_of :: "ContentBlock list \<Rightarrow> string list" where
  "textContents_of [] = []"
| "textContents_of (TextBlock t # bs) = t # textContents_of bs"
| "textContents_of (b # bs) = textContents_of bs"

definition initial_request :: "string \<Rightarrow> MCPMultiClient \<Rightarrow> request" where
  "initial_request query st =
     \<lparr>model = ''claude-3-5-sonnet-20240620'', max_tokens = 2048,
      messages = [(User, QueryText query)],
      tools = (if 0 < length (allTools st) then Some (allTools st) else None)\<rparr>"

definition final_request :: "string \<Rightarrow> ContentBlock list \<Rightarrow> ToolResultPart list \<Rightarrow> request" where
  "final_request query initialContent toolResults =
     \<lparr>model = ''claude-3-opus-20240229'', max_tokens = 2048,
      messages = [(User, QueryText query), (Assistant, Blocks initialContent),
                  (User, ToolResults toolResults)],
      tools = None\<rparr>"

definition placeholder :: string where
  "placeholder = ''Claude did not provide a text response.''"

definition processQuery :: "env \<Rightarrow> string \<Rightarrow> MCPMultiClient \<Rightarrow> string \<times> MCPMultiClient" where
  "processQuery e query st =
     (let st1 = emit (MessagesCreate (initial_request query st)) st
      in case messages_create e (trace st) (initial_request query st) of
           Inl err \<Rightarrow> (''An error occurred: '' @ err, emit (ErrQuery err) st1)
         | Inr initialResponse \<Rightarrow>
             (let toolCalls = toolCalls_of (response_content initialResponse);
                  textContents = textContents_of (response_content initialResponse);
                  finalAnswer = (if 0 < length textContents then join newline textContents @ newline else [])
              in if length toolCalls = 0 then
                   (if trim finalAnswer = [] then placeholder else trim finalAnswer,
                    if stop_reason initialResponse = ''tool_use'' then emit WarnStopReason st1 else st1)
                 else
                   (case run_tool_calls e toolCalls st1 of
                      (toolResults, st2) \<Rightarrow>
                        (let req = final_request query (response_content initialResponse) toolResults;
                             st3 = emit (MessagesCreate req) st2
                         in case messages_create e (trace st2) req of
                              Inl err \<Rightarrow> (''An error occurred: '' @ err, emit (ErrQuery err) st3)
                            | Inr finalResponse \<Rightarrow>
                                (trim (finalAnswer
                                       @ join newline (textContents_of (response_content finalResponse))),
                                 st3)))))"

section \<open>The session: chatLoop, loadConfig, cleanup and main\<close>

text \<open>
  \<^verbatim>\<open>chatLoop\<close> over the lines of standard input. The loop leaves at \<^verbatim>\<open>quit\<close>
  (\<open>True\<close>); when the lines run out before that, standard input has ended and the
  question that is pending never settles (\<open>False\<close>).
\<close>

fun chatLoop :: "env \<Rightarrow> string list \<Rightarrow> MCPMultiClient \<Rightarrow> bool \<times> MCPMultiClient" where
  "chatLoop e [] st = (False, st)"
| "chatLoop e (message # rest) st =
     (if toLowerCase message = ''quit'' then (True, st)
      else if trim message = [] then chatLoop e rest st
      else (case processQuery e message st of
              (response, st1) \<Rightarrow> chatLoop e rest (emit (LogAnswer response) st1)))"

text \<open>
  The two schemas of lines 45 to 52 as the validation library applies them: an object
  with a string \<^verbatim>\<open>command\<close> and an array of strings \<^verbatim>\<open>args\<close>, and an object whose
  \<^verbatim>\<open>mcpServers\<close> is an object of such values. A failed validation throws. The record
  schema validates the value under every key and leaves the key \<^verbatim>\<open>__proto__\<close> out of
  its result.
\<close>

fun parse_strings :: "jsval list \<Rightarrow> string list option" where
  "parse_strings [] = Some []"
| "parse_strings (JStr s # vs) =
     (case parse_strings vs of None \<Rightarrow> None | Some ss \<Rightarrow> Some (s # ss))"
| "parse_strings (v # vs) = None"

fun ServerConfigSchema :: "jsval \<Rightarrow> ServerConfig option" where
  "ServerConfigSchema (JObj kvs) =
     (case (map_of kvs ''command'', map_of kvs ''args'') of
        (Some (JStr c), Some (JArr as)) \<Rightarrow>
          (case parse_strings as of None \<Rightarrow> None | Some ss \<Rightarrow> Some \<lparr>command = c, args = ss\<rparr>)
      | _ \<Rightarrow> None)"
| "ServerConfigSchema v = None"

fun parse_servers :: "(string \<times> jsval) list \<Rightarrow> McpServerConfig option" where
  "parse_servers [] = Some []"
| "parse_servers ((k, v) # kvs) =
     (case ServerConfigSchema v of
        None \<Rightarrow> None
      | Some c \<Rightarrow>
          (case parse_servers kvs of
             None \<Rightarrow> None
           | Some cs \<Rightarrow> Some (if k = ''__proto__'' then cs else (k, c) # cs)))"

fun ConfigSchema :: "jsval \<Rightarrow> string + McpServerConfig" where
  "ConfigSchema (JObj kvs) =
     (case map_of kvs ''mcpServers'' of
        Some (JObj servers) \<Rightarrow>
          (case parse_servers servers of None \<Rightarrow> Inl ''ZodError'' | Some cfg \<Rightarrow> Inr cfg)
      | _ \<Rightarrow> Inl ''ZodError'')"
| "ConfigSchema v = Inl ''ZodError''"

text \<open>
  What the process finds when it starts: whether the configuration file exists, the
  credential in the environment, what \<^verbatim>\<open>fs.readFileSync\<close> and \<^verbatim>\<open>JSON.parse\<close> give, how the
  connection attempts settle, and the lines of standard input.
\<close>

record startup =
  file_exists :: bool
  api_key :: "string option"
  read_file :: "string + string"
  json_parse :: "string \<Rightarrow> string + jsval"
  schedule :: "(string \<times> attempt) list"
  stdin_lines :: "string list"

definition loadConfig :: "startup \<Rightarrow> MCPMultiClient \<Rightarrow> unit outcome \<times> MCPMultiClient" where
  "loadConfig su st =
     (case read_file su of
        Inl err \<Rightarrow> (Throw err, st)
      | Inr configData \<Rightarrow>
          (case json_parse su configData of
             Inl err \<Rightarrow> (Throw err, st)
           | Inr rawConfig \<Rightarrow>
               (case ConfigSchema rawConfig of
                  Inl err \<Rightarrow> (Throw err, st)
                | Inr cfg \<Rightarrow> (Return (), st\<lparr>serverConfigs := Some cfg\<rparr>))))"

text \<open>\<^verbatim>\<open>cleanup\<close> closes every client that is left; a failing close is caught and logged.\<close>

definition cleanup :: "MCPMultiClient \<Rightarrow> MCPMultiClient" where
  "cleanup st = st\<lparr>trace := trace st @ map (\<lambda>(serverName, c). CloseClient serverName) (mcpClients st)\<rparr>"

text \<open>
  How \<^verbatim>\<open>main\<close> ends: the process exits with a code, or a rejected promise that nothing
  handles (the constructor throws outside the \<^verbatim>\<open>try\<close>). The second component is
  everything the process did. When standard input ends inside \<^verbatim>\<open>chatLoop\<close> nothing is
  left to run: the process ends with code 0, and neither \<^verbatim>\<open>finally\<close> block runs.
\<close>

datatype exit_status = Exited nat | Rejected string

definition finish :: "MCPMultiClient \<Rightarrow> exit_status \<times> event list" where
  "finish st = (Exited 0, trace (cleanup st))"

definition main :: "env \<Rightarrow> startup \<Rightarrow> exit_status \<times> event list" where
  "main e su =
     (if \<not> file_exists su then (Exited 1, [])
      else if (case api_key su of None \<Rightarrow> True | Some k \<Rightarrow> k = [])
      then (Rejected ''ANTHROPIC_API_KEY is not set in .env file'', [])
      else
        (case loadConfig su (new_client None) of
           (Throw err, st1) \<Rightarrow> finish (emit (ErrUnhandled err) st1)
         | (Exit n, st1) \<Rightarrow> (Exited n, trace st1)
         | (Return u, st1) \<Rightarrow>
             (case connectToServers (schedule su) st1 of
                (Throw err, st2) \<Rightarrow> finish (emit (ErrUnhandled err) st2)
              | (Exit n, st2) \<Rightarrow> (Exited n, trace st2)
              | (Return u, st2) \<Rightarrow>
                  (case chatLoop e (stdin_lines su) st2 of
                     (True, st3) \<Rightarrow> finish st3
                   | (False, st3) \<Rightarrow> (Exited 0, trace st3)))))"

section \<open>Reading a trace and a registry\<close>

text \<open>The model identifiers of the backend calls of a trace, in order.\<close>

fun backend_models :: "event list \<Rightarrow> string list" where
  "backend_models [] = []"
| "backend_models (MessagesCreate r # evs) = model r # backend_models evs"
| "backend_models (ev # evs) = backend_models evs"

text \<open>The collision warnings of a trace about one tool name.\<close>

fun is_collision :: "string \<Rightarrow> event \<Rightarrow> bool" where
  "is_collision n (WarnDuplicate n' prev new) = (n' = n)"
| "is_collision n ev = False"

text \<open>
  The events of a trace that belong to a dispatch (the line that announces a tool call,
  the report that no client was found, the remote call), and the backend calls.
\<close>

fun is_dispatch :: "event \<Rightarrow> bool" where
  "is_dispatch (LogExecuting n i) = True"
| "is_dispatch (ErrNoClient n) = True"
| "is_dispatch (CallTool c n a) = True"
| "is_dispatch ev = False"

fun is_backend_call :: "event \<Rightarrow> bool" where
  "is_backend_call (MessagesCreate r) = True"
| "is_backend_call ev = False"

text \<open>The dispatches and the backend calls of a trace, in the order they happen.\<close>

definition protocol_events :: "event list \<Rightarrow> event list" where
  "protocol_events tr = filter (\<lambda>ev. is_dispatch ev \<or> is_backend_call ev) tr"

text \<open>
  The client that lines 243 and 244 find for a tool name, and what one dispatch of a
  requested tool call shows in a trace: the announcement, then the remote call on that
  client with the requested name and arguments, or the report that there is no client.
\<close>

definition owner_client :: "MCPMultiClient \<Rightarrow> string \<Rightarrow> Client option" where
  "owner_client st toolName =
     (case map_of (toolToServerMap st) toolName of
        None \<Rightarrow> None
      | Some serverName \<Rightarrow> if serverName = [] then None else map_of (mcpClients st) serverName)"

definition dispatch_events :: "MCPMultiClient \<Rightarrow> ToolUse \<Rightarrow> event list" where
  "dispatch_events st toolCall =
     (case toolCall of (toolUseId, toolName, input) \<Rightarrow>
        LogExecuting toolName toolUseId #
          (case owner_client st toolName of
             None \<Rightarrow> [ErrNoClient toolName]
           | Some c \<Rightarrow> [CallTool c toolName (if truthy input then input else JObj [])]))"

text \<open>
  Reading a schedule: the servers whose attempt ran to its end, the servers whose attempt
  failed, the tool names pushed to \<open>allTools\<close>, and the registrations (server and tool
  name, one for each turn of the callback of line 122), all in the order the attempts
  settle. The owners of a name are the servers of its registrations, and the collision
  warnings of a sequence of owners name each owner with the one before it.
\<close>

definition ready_servers :: "(string \<times> attempt) list \<Rightarrow> string list" where
  "ready_servers sched = map fst (filter (\<lambda>(s, a). attempt_ready a) sched)"

definition failed_servers :: "(string \<times> attempt) list \<Rightarrow> string list" where
  "failed_servers sched = map fst (filter (\<lambda>(s, a). \<not> attempt_ready a) sched)"

definition snapshot_names :: "(string \<times> attempt) list \<Rightarrow> string list" where
  "snapshot_names sched = concat (map (\<lambda>(s, a). map name (pushed_tools a)) sched)"

definition registrations :: "(string \<times> attempt) list \<Rightarrow> (string \<times> string) list" where
  "registrations sched = concat (map (\<lambda>(s, a). map (\<lambda>t. (s, name t)) (registered_tools a)) sched)"

definition owners_of :: "string \<Rightarrow> (string \<times> attempt) list \<Rightarrow> string list" where
  "owners_of n sched = map fst (filter (\<lambda>(s, m). m = n) (registrations sched))"

fun collision_warnings :: "string \<Rightarrow> string list \<Rightarrow> event list" where
  "collision_warnings n (p # q # owners) = WarnDuplicate n p q # collision_warnings n (q # owners)"
| "collision_warnings n owners = []"

section \<open>Projections of the registration steps\<close>

lemma emit_simps [simp]:
  "trace (emit ev st) = trace st @ [ev]"
  "mcpClients (emit ev st) = mcpClients st"
  "transports (emit ev st) = transports st"
  "allTools (emit ev st) = allTools st"
  "toolToServerMap (emit ev st) = toolToServerMap st"
  "serverConfigs (emit ev st) = serverConfigs st"
  by (simp_all add: emit_def)

lemma new_client_fields [simp]:
  "serverConfigs (new_client c) = c"
  "mcpClients (new_client c) = []"
  "transports (new_client c) = []"
  "allTools (new_client c) = []"
  "toolToServerMap (new_client c) = []"
  "trace (new_client c) = []"
  by (simp_all add: new_client_def)

lemma register_tool_fields [simp]:
  "mcpClients (snd (register_tool s t st)) = mcpClients st"
  "transports (snd (register_tool s t st)) = transports st"
  "allTools (snd (register_tool s t st)) = allTools st"
  "serverConfigs (snd (register_tool s t st)) = serverConfigs st"
  "toolToServerMap (snd (register_tool s t st)) = AList.update (name t) s (toolToServerMap st)"
  "tool_name (fst (register_tool s t st)) = name t"
  by (simp_all add: register_tool_def Let_def split: option.splits)

lemma register_tool_collisions:
  "filter (is_collision n) (trace (snd (register_tool s t st))) =
     filter (is_collision n) (trace st) @
       (if n = name t then (case map_of (toolToServerMap st) n of
                              Some prev \<Rightarrow> [WarnDuplicate n prev s] | None \<Rightarrow> [])
        else [])"
  by (simp add: register_tool_def Let_def split: option.splits)

lemma register_tools_Cons:
  "snd (register_tools s (t # ts) st) = snd (register_tools s ts (snd (register_tool s t st)))"
  "fst (register_tools s (t # ts) st) =
     fst (register_tool s t st) # fst (register_tools s ts (snd (register_tool s t st)))"
  by (simp_all split: prod.splits)

lemma register_tools_fields [simp]:
  "mcpClients (snd (register_tools s ts st)) = mcpClients st"
  "transports (snd (register_tools s ts st)) = transports st"
  "allTools (snd (register_tools s ts st)) = allTools st"
  "serverConfigs (snd (register_tools s ts st)) = serverConfigs st"
  "map tool_name (fst (register_tools s ts st)) = map name ts"
  by (induction ts arbitrary: st; simp add: register_tools_Cons del: register_tools.simps(2))+

lemma register_tools_owner:
  "map_of (toolToServerMap (snd (register_tools s ts st))) n =
     (if n \<in> name ` set ts then Some s else map_of (toolToServerMap st) n)"
  by (induction ts arbitrary: st)
     (simp_all add: register_tools_Cons update_conv' del: register_tools.simps(2))

lemma snd_set_update: "snd ` set (AList.update k v al) \<subseteq> insert v (snd ` set al)"
  by (induction al) auto

lemma keys_delete: "fst ` set (AList.delete k al) = fst ` set al - {k}"
  by (induction al) auto

lemma register_tools_keys:
  "fst ` set (toolToServerMap (snd (register_tools s ts st))) =
     fst ` set (toolToServerMap st) \<union> name ` set ts"
  by (induction ts arbitrary: st)
     (auto simp add: register_tools_Cons dom_update simp del: register_tools.simps(2))

lemma register_tools_owners:
  "snd ` set (toolToServerMap (snd (register_tools s ts st))) \<subseteq>
     insert s (snd ` set (toolToServerMap st))"
proof (induction ts arbitrary: st)
  case Nil
  then show ?case by auto
next
  case (Cons t ts)
  have "snd ` set (toolToServerMap (snd (register_tools s (t # ts) st)))
          \<subseteq> insert s (snd ` set (AList.update (name t) s (toolToServerMap st)))"
    using Cons.IH [of "snd (register_tool s t st)"]
    by (simp add: register_tools_Cons del: register_tools.simps(2))
  also have "\<dots> \<subseteq> insert s (insert s (snd ` set (toolToServerMap st)))"
    using snd_set_update [of "name t" s "toolToServerMap st"] by blast
  finally show ?case by simp
qed

text \<open>
  The owner of a name and the collision warnings about it, along a sequence of
  registrations: when the owners so far are \<open>os\<close>, one more registration of the name by
  \<open>s\<close> makes them \<open>os @ [s]\<close>.
\<close>

lemma collision_warnings_snoc:
  "collision_warnings n (os @ [s]) =
     collision_warnings n os @ (if os = [] then [] else [WarnDuplicate n (last os) s])"
  by (induction n os rule: collision_warnings.induct) simp_all

lemma register_tool_owners_of:
  assumes "map_of (toolToServerMap st) n = (if os = [] then None else Some (last os))"
    and "filter (is_collision n) (trace st) = collision_warnings n os"
  shows "map_of (toolToServerMap (snd (register_tool s t st))) n =
           (if os @ (if name t = n then [s] else []) = [] then None
            else Some (last (os @ (if name t = n then [s] else []))))"
    and "filter (is_collision n) (trace (snd (register_tool s t st))) =
           collision_warnings n (os @ (if name t = n then [s] else []))"
  using assms
  by (auto simp add: register_tool_collisions update_conv' collision_warnings_snoc)

lemma register_tools_owners_of:
  assumes "map_of (toolToServerMap st) n = (if os = [] then None else Some (last os))"
    and "filter (is_collision n) (trace st) = collision_warnings n os"
  shows "map_of (toolToServerMap (snd (register_tools s ts st))) n =
           (if os @ map fst (filter (\<lambda>(s', m). m = n) (map (\<lambda>t. (s, name t)) ts)) = [] then None
            else Some (last (os @ map fst (filter (\<lambda>(s', m). m = n) (map (\<lambda>t. (s, name t)) ts)))))
       \<and> filter (is_collision n) (trace (snd (register_tools s ts st))) =
           collision_warnings n (os @ map fst (filter (\<lambda>(s', m). m = n) (map (\<lambda>t. (s, name t)) ts)))"
  using assms
proof (induction ts arbitrary: st os)
  case Nil
  then show ?case by simp
next
  case (Cons t ts)
  let ?os = "os @ (if name t = n then [s] else [])"
  note step = register_tool_owners_of [OF Cons.prems, of s t]
  have "os @ map fst (filter (\<lambda>(s', m). m = n) (map (\<lambda>t. (s, name t)) (t # ts)))
          = ?os @ map fst (filter (\<lambda>(s', m). m = n) (map (\<lambda>t. (s, name t)) ts))"
    by simp
  with Cons.IH [OF step] show ?case
    by (simp only: register_tools_Cons)
qed

lemma settle_fields:
  "toolToServerMap (settle (s, a) st) = toolToServerMap (snd (register_tools s (registered_tools a) st))"
  "filter (is_collision n) (trace (settle (s, a) st)) =
     filter (is_collision n) (trace (snd (register_tools s (registered_tools a) st)))"
  "map tool_name (allTools (settle (s, a) st)) = map tool_name (allTools st) @ map name (pushed_tools a)"
  "mcpClients (settle (s, a) st) =
     (if attempt_ready a then mcpClients st else AList.delete s (mcpClients st))"
  "serverConfigs (settle (s, a) st) = serverConfigs st"
  by (cases a; simp split: prod.splits; metis register_tools_fields snd_conv fst_conv)+

declare settle.simps [simp del]

section \<open>A whole schedule\<close>

lemma settle_all_append: "settle_all (xs @ ys) st = settle_all ys (settle_all xs st)"
  by (induction xs arbitrary: st) simp_all

lemma settle_all_clients:
  "fst ` set (mcpClients (settle_all sched st)) = fst ` set (mcpClients st) - set (failed_servers sched)"
proof (induction sched arbitrary: st)
  case Nil
  then show ?case by (simp add: failed_servers_def)
next
  case (Cons p sched)
  obtain s a where p: "p = (s, a)" by (cases p)
  show ?case
    using Cons.IH [of "settle p st"]
    by (auto simp add: p failed_servers_def settle_fields keys_delete)
qed

lemma registrations_Cons:
  "registrations ((s, a) # sched) = map (\<lambda>t. (s, name t)) (registered_tools a) @ registrations sched"
  by (simp add: registrations_def)

lemma registrations_Nil [simp]: "registrations [] = []"
  by (simp add: registrations_def)

lemma pairs_of_server:
  "snd ` set (map (\<lambda>t. (s, name t)) ts) = name ` set ts"
  "fst ` set (map (\<lambda>t. (s, name t)) ts) = (if ts = [] then {} else {s})"
  by (induction ts) auto

lemma settle_all_keys:
  "fst ` set (toolToServerMap (settle_all sched st)) =
     fst ` set (toolToServerMap st) \<union> snd ` set (registrations sched)"
proof (induction sched arbitrary: st)
  case Nil
  then show ?case by simp
next
  case (Cons p sched)
  obtain s a where p: "p = (s, a)" by (cases p)
  have "snd ` set (registrations (p # sched)) =
          name ` set (registered_tools a) \<union> snd ` set (registrations sched)"
    unfolding p registrations_Cons set_append image_Un pairs_of_server ..
  moreover have "fst ` set (toolToServerMap (settle p st)) =
          fst ` set (toolToServerMap st) \<union> name ` set (registered_tools a)"
    by (simp add: p settle_fields register_tools_keys)
  ultimately show ?case
    using Cons.IH [of "settle p st"] by (simp add: Un_assoc)
qed

lemma settle_all_owners:
  "snd ` set (toolToServerMap (settle_all sched st)) \<subseteq>
     snd ` set (toolToServerMap st) \<union> fst ` set (registrations sched)"
proof (induction sched arbitrary: st)
  case Nil
  then show ?case by simp
next
  case (Cons p sched)
  obtain s a where p: "p = (s, a)" by (cases p)
  have "snd ` set (toolToServerMap (settle_all (p # sched) st))
          \<subseteq> snd ` set (toolToServerMap (settle p st)) \<union> fst ` set (registrations sched)"
    using Cons.IH [of "settle p st"] by simp
  moreover have "snd ` set (toolToServerMap (settle p st))
          \<subseteq> insert s (snd ` set (toolToServerMap st))"
    unfolding p settle_fields by (rule register_tools_owners)
  moreover have "registered_tools a = [] \<Longrightarrow> toolToServerMap (settle p st) = toolToServerMap st"
    by (simp add: p settle_fields)
  moreover have "fst ` set (registrations (p # sched)) =
          (if registered_tools a = [] then {} else {s}) \<union> fst ` set (registrations sched)"
    unfolding p registrations_Cons set_append image_Un pairs_of_server ..
  ultimately show ?case
    by (cases "registered_tools a = []") auto
qed

lemma settle_all_tool_names:
  "map tool_name (allTools (settle_all sched st)) = map tool_name (allTools st) @ snapshot_names sched"
proof (induction sched arbitrary: st)
  case Nil
  then show ?case by (simp add: snapshot_names_def)
next
  case (Cons p sched)
  obtain s a where p: "p = (s, a)" by (cases p)
  show ?case
    using Cons.IH [of "settle p st"]
    by (simp add: p snapshot_names_def settle_fields)
qed

lemma owners_of_Cons:
  "owners_of n ((s, a) # sched) =
     map fst (filter (\<lambda>(s', m). m = n) (map (\<lambda>t. (s, name t)) (registered_tools a))) @ owners_of n sched"
  by (simp add: owners_of_def registrations_Cons)

lemma settle_all_owners_of:
  assumes "map_of (toolToServerMap st) n = (if os = [] then None else Some (last os))"
    and "filter (is_collision n) (trace st) = collision_warnings n os"
  shows "map_of (toolToServerMap (settle_all sched st)) n =
           (if os @ owners_of n sched = [] then None else Some (last (os @ owners_of n sched)))
       \<and> filter (is_collision n) (trace (settle_all sched st)) =
           collision_warnings n (os @ owners_of n sched)"
  using assms
proof (induction sched arbitrary: st os)
  case Nil
  then show ?case by (simp add: owners_of_def)
next
  case (Cons p sched)
  obtain s a where p: "p = (s, a)" by (cases p)
  let ?new = "map fst (filter (\<lambda>(s', m). m = n) (map (\<lambda>t. (s, name t)) (registered_tools a)))"
  have step: "map_of (toolToServerMap (settle p st)) n =
                (if os @ ?new = [] then None else Some (last (os @ ?new)))"
      "filter (is_collision n) (trace (settle p st)) = collision_warnings n (os @ ?new)"
    using register_tools_owners_of [OF Cons.prems, of s "registered_tools a"]
    by (simp_all only: p settle_fields)
  have "os @ owners_of n (p # sched) = (os @ ?new) @ owners_of n sched"
    by (simp add: p owners_of_Cons)
  with Cons.IH [OF step] show ?case
    by simp
qed

lemma start_attempts_fields [simp]:
  "toolToServerMap (start_attempts cfg st) = toolToServerMap st"
  "allTools (start_attempts cfg st) = allTools st"
  "trace (start_attempts cfg st) = trace st"
  "serverConfigs (start_attempts cfg st) = serverConfigs st"
  by (induction cfg st rule: start_attempts.induct) simp_all

lemma start_attempts_clients:
  "fst ` set (mcpClients (start_attempts cfg st)) = fst ` set (mcpClients st) \<union> fst ` set cfg"
  by (induction cfg st rule: start_attempts.induct) (auto simp add: dom_update)

lemma ready_not_failed:
  "distinct (map fst sched) \<Longrightarrow> set (map fst sched) - set (failed_servers sched) = set (ready_servers sched)"
  by (induction sched) (auto simp add: failed_servers_def ready_servers_def)

lemma connect_clients:
  assumes "schedule_of cfg sched"
  shows "fst ` set (mcpClients (settle_all sched (start_attempts cfg (new_client (Some cfg)))))
           = set (ready_servers sched)"
proof -
  have "fst ` set (mcpClients (settle_all sched (start_attempts cfg (new_client (Some cfg)))))
          = set (map fst cfg) - set (failed_servers sched)"
    by (simp add: settle_all_clients start_attempts_clients)
  also have "\<dots> = set (ready_servers sched)"
    using assms ready_not_failed [of sched] by (simp add: schedule_of_def)
  finally show ?thesis .
qed

lemma connectToServers_loaded:
  "connectToServers sched (new_client (Some cfg)) =
     (let st1 = settle_all sched (start_attempts cfg (new_client (Some cfg)))
      in (if length (mcpClients st1) = 0 then Exit 1 else Return (), st1))"
  by (simp add: connectToServers_def Let_def)

lemma connect_result:
  assumes "schedule_of cfg sched"
  shows "fst (connectToServers sched (new_client (Some cfg))) =
           (if ready_servers sched = [] then Exit 1 else Return ())"
proof -
  let ?s = "settle_all sched (start_attempts cfg (new_client (Some cfg)))"
  have "fst ` set (mcpClients ?s) = set (ready_servers sched)"
    using assms by (rule connect_clients)
  then have "mcpClients ?s = [] \<longleftrightarrow> ready_servers sched = []"
    by (metis image_is_empty set_empty)
  then show ?thesis
    by (simp add: connectToServers_loaded Let_def)
qed

text \<open>
  What connection establishment leaves behind, for every schedule of a configuration: the
  client map holds the servers whose attempt ran to its end; the registry holds the names
  and the servers of all registrations, also those of an attempt that failed after line
  128; \<open>allTools\<close> holds the tools that were pushed.
\<close>

lemma connectToServers_state:
  assumes "schedule_of cfg sched"
  shows "fst ` set (mcpClients (snd (connectToServers sched (new_client (Some cfg))))) = set (ready_servers sched)"
    and "fst ` set (toolToServerMap (snd (connectToServers sched (new_client (Some cfg))))) = snd ` set (registrations sched)"
    and "snd ` set (toolToServerMap (snd (connectToServers sched (new_client (Some cfg))))) \<subseteq> fst ` set (registrations sched)"
    and "map tool_name (allTools (snd (connectToServers sched (new_client (Some cfg))))) = snapshot_names sched"
proof -
  let ?init = "start_attempts cfg (new_client (Some cfg))"
  have s: "snd (connectToServers sched (new_client (Some cfg))) = settle_all sched ?init"
    by (simp add: connectToServers_loaded Let_def)
  show "fst ` set (mcpClients (snd (connectToServers sched (new_client (Some cfg))))) = set (ready_servers sched)"
    unfolding s using assms by (rule connect_clients)
  show "fst ` set (toolToServerMap (snd (connectToServers sched (new_client (Some cfg))))) = snd ` set (registrations sched)"
    unfolding s by (simp add: settle_all_keys)
  show "snd ` set (toolToServerMap (snd (connectToServers sched (new_client (Some cfg))))) \<subseteq> fst ` set (registrations sched)"
    unfolding s using settle_all_owners [where sched = sched and st = ?init] by simp
  show "map tool_name (allTools (snd (connectToServers sched (new_client (Some cfg))))) = snapshot_names sched"
    unfolding s by (simp add: settle_all_tool_names)
qed

lemma connectToServers_owners_of:
  "map_of (toolToServerMap (snd (connectToServers sched (new_client (Some cfg))))) n =
     (if owners_of n sched = [] then None else Some (last (owners_of n sched)))"
  "filter (is_collision n) (trace (snd (connectToServers sched (new_client (Some cfg))))) =
     collision_warnings n (owners_of n sched)"
proof -
  let ?init = "start_attempts cfg (new_client (Some cfg))"
  have s: "snd (connectToServers sched (new_client (Some cfg))) = settle_all sched ?init"
    by (simp add: connectToServers_loaded Let_def)
  have "map_of (toolToServerMap ?init) n = (if ([]::string list) = [] then None else Some (last []))"
    and "filter (is_collision n) (trace ?init) = collision_warnings n []"
    by simp_all
  from settle_all_owners_of [OF this, of sched]
  show "map_of (toolToServerMap (snd (connectToServers sched (new_client (Some cfg))))) n =
          (if owners_of n sched = [] then None else Some (last (owners_of n sched)))"
    and "filter (is_collision n) (trace (snd (connectToServers sched (new_client (Some cfg))))) =
          collision_warnings n (owners_of n sched)"
    unfolding s by simp_all
qed

lemma registrations_ready:
  assumes "\<forall>(s, a) \<in> set sched. attempt_ready a \<or> registered_tools a = []"
  shows "fst ` set (registrations sched) \<subseteq> set (ready_servers sched)"
  using assms
proof (induction sched)
  case Nil
  then show ?case by simp
next
  case (Cons p sched)
  obtain s a where p: "p = (s, a)" by (cases p)
  from Cons.prems have here: "attempt_ready a \<or> registered_tools a = []"
    and rest: "\<forall>(s, a) \<in> set sched. attempt_ready a \<or> registered_tools a = []"
    by (simp_all add: p)
  have "fst ` set (registrations (p # sched)) =
          (if registered_tools a = [] then {} else {s}) \<union> fst ` set (registrations sched)"
    unfolding p registrations_Cons set_append image_Un pairs_of_server ..
  moreover have "set (ready_servers (p # sched)) =
          (if attempt_ready a then {s} else {}) \<union> set (ready_servers sched)"
    by (simp add: p ready_servers_def)
  ultimately show ?case
    using Cons.IH [OF rest] here by auto
qed

text \<open>
  Where no attempt fails after it has registered its catalog, every owner in the registry
  has a client.
\<close>

lemma owners_connected_without_late_failure:
  assumes "schedule_of cfg sched"
    and "\<forall>(s, a) \<in> set sched. attempt_ready a \<or> registered_tools a = []"
  shows "snd ` set (toolToServerMap (snd (connectToServers sched (new_client (Some cfg)))))
           \<subseteq> fst ` set (mcpClients (snd (connectToServers sched (new_client (Some cfg)))))"
  using connectToServers_state(1,3) [OF assms(1)] registrations_ready [OF assms(2)]
  by blast

section \<open>The tool loop and the query\<close>

lemma backend_models_append [simp]:
  "backend_models (xs @ ys) = backend_models xs @ backend_models ys"
  by (induction xs rule: backend_models.induct) simp_all

lemma protocol_events_append [simp]:
  "protocol_events (xs @ ys) = protocol_events xs @ protocol_events ys"
  by (simp add: protocol_events_def)

lemma invoke_fields [simp]:
  "toolToServerMap (snd (invoke e tc st)) = toolToServerMap st"
  "mcpClients (snd (invoke e tc st)) = mcpClients st"
  "allTools (snd (invoke e tc st)) = allTools st"
  by (cases tc; simp add: invoke_def Let_def split: option.splits sum.splits prod.splits)+

lemma invoke_id [simp]: "tool_use_id (fst (invoke e (i, n, inp) st)) = i"
  by (simp add: invoke_def Let_def split: option.splits sum.splits prod.splits)

lemma invoke_protocol_events:
  "protocol_events (trace (snd (invoke e tc st))) = protocol_events (trace st) @ dispatch_events st tc"
  by (cases tc)
     (simp add: invoke_def Let_def protocol_events_def dispatch_events_def owner_client_def
           split: option.splits sum.splits prod.splits)

lemma owner_client_cong:
  "toolToServerMap st' = toolToServerMap st \<Longrightarrow> mcpClients st' = mcpClients st \<Longrightarrow>
   owner_client st' = owner_client st"
  by (rule ext) (simp add: owner_client_def split: option.splits)

lemma dispatch_events_cong:
  "toolToServerMap st' = toolToServerMap st \<Longrightarrow> mcpClients st' = mcpClients st \<Longrightarrow>
   dispatch_events st' = dispatch_events st"
  using owner_client_cong [of st' st] by (simp add: dispatch_events_def fun_eq_iff)

lemma invoke_backend_models [simp]:
  "backend_models (trace (snd (invoke e tc st))) = backend_models (trace st)"
  by (cases tc) (simp add: invoke_def Let_def split: option.splits sum.splits prod.splits)

lemma run_tool_calls_Cons:
  "fst (run_tool_calls e (tc # tcs) st) = fst (invoke e tc st) # fst (run_tool_calls e tcs (snd (invoke e tc st)))"
  "snd (run_tool_calls e (tc # tcs) st) = snd (run_tool_calls e tcs (snd (invoke e tc st)))"
  by (simp_all split: prod.splits)

lemma run_tool_calls_ids:
  "map tool_use_id (fst (run_tool_calls e tcs st)) = map fst tcs"
  by (induction tcs arbitrary: st)
     (auto simp add: run_tool_calls_Cons simp del: run_tool_calls.simps(2))

lemma run_tool_calls_length [simp]:
  "length (fst (run_tool_calls e tcs st)) = length tcs"
  by (induction tcs arbitrary: st)
     (simp_all add: run_tool_calls_Cons del: run_tool_calls.simps(2))

lemma run_tool_calls_protocol_events:
  "protocol_events (trace (snd (run_tool_calls e tcs st))) =
     protocol_events (trace st) @ concat (map (dispatch_events st) tcs)"
proof (induction tcs arbitrary: st)
  case Nil
  then show ?case by simp
next
  case (Cons tc tcs)
  have "dispatch_events (snd (invoke e tc st)) = dispatch_events st"
    by (rule dispatch_events_cong) simp_all
  with Cons.IH [of "snd (invoke e tc st)"] show ?case
    by (simp add: run_tool_calls_Cons invoke_protocol_events del: run_tool_calls.simps(2))
qed

text \<open>
  The result at position \<open>k\<close> is what the turn for the request at position \<open>k\<close> returns,
  run after the turns for the requests before it.
\<close>

lemma run_tool_calls_nth:
  "k < length tcs \<Longrightarrow>
   fst (run_tool_calls e tcs st) ! k =
     fst (invoke e (tcs ! k) (fold (\<lambda>tc s. snd (invoke e tc s)) (take k tcs) st))"
proof (induction tcs arbitrary: k st)
  case Nil
  then show ?case by simp
next
  case (Cons tc tcs)
  show ?case
  proof (cases k)
    case 0
    then show ?thesis
      by (simp add: run_tool_calls_Cons del: run_tool_calls.simps(2))
  next
    case (Suc j)
    with Cons.prems have "j < length tcs" by simp
    from Cons.IH [OF this, of "snd (invoke e tc st)"] Suc show ?thesis
      by (simp add: run_tool_calls_Cons del: run_tool_calls.simps(2))
  qed
qed

lemma run_tool_calls_backend_models [simp]:
  "backend_models (trace (snd (run_tool_calls e tcs st))) = backend_models (trace st)"
  by (induction tcs arbitrary: st)
     (simp_all add: run_tool_calls_Cons del: run_tool_calls.simps(2))

lemma processQuery_tools:
  assumes "messages_create e (trace st) (initial_request q st) = Inr r"
    and "toolCalls_of (response_content r) \<noteq> []"
  shows "snd (processQuery e q st) =
     (let st2 = snd (run_tool_calls e (toolCalls_of (response_content r)) (emit (MessagesCreate (initial_request q st)) st));
          results = fst (run_tool_calls e (toolCalls_of (response_content r)) (emit (MessagesCreate (initial_request q st)) st));
          req = final_request q (response_content r) results;
          st3 = emit (MessagesCreate req) st2
      in case messages_create e (trace st2) req of Inl err \<Rightarrow> emit (ErrQuery err) st3 | Inr f \<Rightarrow> st3)"
  using assms by (simp add: processQuery_def Let_def split: prod.splits sum.splits)

lemma processQuery_failed:
  assumes "messages_create e (trace st) (initial_request q st) = Inl err"
  shows "processQuery e q st =
           (''An error occurred: '' @ err,
            emit (ErrQuery err) (emit (MessagesCreate (initial_request q st)) st))"
  using assms by (simp add: processQuery_def Let_def)

lemma processQuery_answered:
  assumes "messages_create e (trace st) (initial_request q st) = Inr r"
    and "toolCalls_of (response_content r) = []"
  shows "snd (processQuery e q st) =
           (if stop_reason r = ''tool_use''
            then emit WarnStopReason (emit (MessagesCreate (initial_request q st)) st)
            else emit (MessagesCreate (initial_request q st)) st)"
  using assms by (simp add: processQuery_def Let_def)

lemma is_space_newline: "is_space (CHR 0x0A)"
  by (simp add: is_space_def)

lemma trim_append_newline: "trim (s @ newline) = trim s"
proof (cases "\<forall>c \<in> set s. is_space c")
  case True
  then have "dropWhile is_space (s @ newline) = []"
    by (simp add: newline_def is_space_newline)
  moreover from True have "dropWhile is_space s = []"
    by simp
  ultimately show ?thesis
    unfolding trim_def by (simp only:)
next
  case False
  then have "dropWhile is_space (s @ newline) = dropWhile is_space s @ newline"
    by (auto simp add: dropWhile_append1)
  then show ?thesis by (simp add: trim_def newline_def is_space_newline)
qed

lemma trim_Nil [simp]: "trim [] = []"
  by (simp add: trim_def)

section \<open>The registry and the snapshot\<close>

text \<open>
  Claim C1. The snapshot offered to the model backend (\<open>allTools\<close>) is said to hold no
  capability name twice, with the most recently registered entry where two servers
  advertise one name. The registry \<open>toolToServerMap\<close> keeps one owner per name, but
  \<open>allTools\<close> receives every catalog whole (line 151): with two servers that both
  advertise \<^verbatim>\<open>ECHO\<close>, the snapshot and the tools of the first backend request hold the
  name twice, while the registry holds it once, owned by the server that settled last.
\<close>

theorem allTools_duplicate_name:
  "(let st = snd (connectToServers
             [(''simple1'', Ready [\<lparr>name = ''ECHO'', description = None, inputSchema = JUndefined\<rparr>]),
              (''simple2'', Ready [\<lparr>name = ''ECHO'', description = None, inputSchema = JUndefined\<rparr>])]
             (new_client (Some [(''simple1'', \<lparr>command = ''node'', args = [''simpleServer.js'']\<rparr>),
                                (''simple2'', \<lparr>command = ''node'', args = [''simpleServer.js'']\<rparr>)])))
    in map tool_name (allTools st) = [''ECHO'', ''ECHO'']
       \<and> map_option (map tool_name) (tools (initial_request ''hi'' st)) = Some [''ECHO'', ''ECHO'']
       \<and> toolToServerMap st = [(''ECHO'', ''simple2'')])"
  by (simp add: connectToServers_def new_client_def register_tool_def emit_def Let_def
        initial_request_def settle.simps)

text \<open>
  Claim C6 as stated speaks of every pair of servers that advertise one name. With three
  servers \<open>A\<close>, \<open>B\<close> and \<open>C\<close> that advertise \<^verbatim>\<open>ECHO\<close> and settle in this order, the pair
  \<open>A\<close> and \<open>B\<close> has registered, yet the registry resolves the name to \<open>C\<close>, and two
  collision warnings about the one name are written.
\<close>

theorem collision_pair_counterexample:
  "(let cfg = [(''A'', \<lparr>command = ''node'', args = [''simpleServer.js'']\<rparr>),
               (''B'', \<lparr>command = ''node'', args = [''simpleServer.js'']\<rparr>),
               (''C'', \<lparr>command = ''node'', args = [''simpleServer.js'']\<rparr>)];
        echo = \<lparr>name = ''ECHO'', description = None, inputSchema = JUndefined\<rparr>;
        st = snd (connectToServers [(''A'', Ready [echo]), (''B'', Ready [echo]), (''C'', Ready [echo])]
                    (new_client (Some cfg)))
    in map_of (toolToServerMap st) ''ECHO'' = Some ''C''
       \<and> map_of (toolToServerMap st) ''ECHO'' \<noteq> Some ''B''
       \<and> filter (is_collision ''ECHO'') (trace st) =
           [WarnDuplicate ''ECHO'' ''A'' ''B'', WarnDuplicate ''ECHO'' ''B'' ''C'']
       \<and> length (filter (is_collision ''ECHO'') (trace st)) \<noteq> 1)"
proof -
  let ?echo = "\<lparr>name = ''ECHO'', description = None, inputSchema = JUndefined\<rparr>"
  let ?sched = "[(''A'', Ready [?echo]), (''B'', Ready [?echo]), (''C'', Ready [?echo])]"
  have o: "owners_of ''ECHO'' ?sched = [''A'', ''B'', ''C'']"
    by (simp add: owners_of_def registrations_def)
  show ?thesis
    unfolding Let_def connectToServers_owners_of o by simp
qed

text \<open>
  Claim C6, as amended. For every tool name, after connection establishment the registry
  resolves the name to the server of its last registration, and one collision warning is
  written at each registration of the name after the first, naming the owner before and
  the new owner (exactly one warning when two servers advertise the name once each). A
  collision is no error: the call returns normally when some server ran to its end, and
  ends the process when none did.
\<close>

theorem collision_owner_sequence:
  assumes "schedule_of cfg sched"
  shows "(case connectToServers sched (new_client (Some cfg)) of
            (res, st) \<Rightarrow>
              map_of (toolToServerMap st) n =
                (if owners_of n sched = [] then None else Some (last (owners_of n sched)))
              \<and> filter (is_collision n) (trace st) = collision_warnings n (owners_of n sched)
              \<and> res = (if ready_servers sched = [] then Exit 1 else Return ()))"
  using connect_result [OF assms] connectToServers_owners_of [where sched = sched and cfg = cfg and n = n]
  by (simp add: case_prod_beta)

theorem collision_owner_sequence_witness:
  "(let cfg = [(''echo1'', \<lparr>command = ''node'', args = [''simpleServer.js'']\<rparr>),
               (''echo2'', \<lparr>command = ''node'', args = [''simpleServer.js'']\<rparr>)];
        sched = [(''echo2'', Ready [\<lparr>name = ''ECHO'', description = None, inputSchema = JUndefined\<rparr>]),
                 (''echo1'', Ready [\<lparr>name = ''TIME'', description = None, inputSchema = JUndefined\<rparr>,
                                   \<lparr>name = ''ECHO'', description = None, inputSchema = JUndefined\<rparr>])];
        st = snd (connectToServers sched (new_client (Some cfg)))
    in schedule_of cfg sched
       \<and> owners_of ''ECHO'' sched = [''echo2'', ''echo1'']
       \<and> fst (connectToServers sched (new_client (Some cfg))) = Return ()
       \<and> map_of (toolToServerMap st) ''ECHO'' = Some ''echo1''
       \<and> filter (is_collision ''ECHO'') (trace st) = [WarnDuplicate ''ECHO'' ''echo2'' ''echo1''])"
proof -
  let ?cfg = "[(''echo1'', \<lparr>command = ''node'', args = [''simpleServer.js'']\<rparr>),
               (''echo2'', \<lparr>command = ''node'', args = [''simpleServer.js'']\<rparr>)]"
  let ?sched = "[(''echo2'', Ready [\<lparr>name = ''ECHO'', description = None, inputSchema = JUndefined\<rparr>]),
                 (''echo1'', Ready [\<lparr>name = ''TIME'', description = None, inputSchema = JUndefined\<rparr>,
                                   \<lparr>name = ''ECHO'', description = None, inputSchema = JUndefined\<rparr>])]"
  have h: "schedule_of ?cfg ?sched"
    by (auto simp add: schedule_of_def)
  have o: "owners_of ''ECHO'' ?sched = [''echo2'', ''echo1'']"
    by (simp add: owners_of_def registrations_def)
  have r: "ready_servers ?sched = [''echo2'', ''echo1'']"
    by (simp add: ready_servers_def)
  note t = collision_owner_sequence [OF h, of "''ECHO''"]
  show ?thesis
    unfolding Let_def using h o t [unfolded o r] by (simp add: case_prod_beta)
qed

text \<open>
  Claim C8. After connection establishment in which some server failed, the registry is
  said to hold only the capabilities of the servers that connected. The \<^verbatim>\<open>catch\<close> block
  of lines 155 to 158 deletes the client and the transport of a failed server and leaves
  the owners that line 128 stored. With a server that succeeds and a server of 130000 tools
  for which the push of line 151 throws, the call returns normally and the client map and
  \<open>allTools\<close> hold the successful server only, but the registry still holds the tool name
  of the failed server.
\<close>

theorem failed_server_keeps_registry_entries:
  "(let cfg = [(''A'', \<lparr>command = ''node'', args = [''simpleServer.js'']\<rparr>),
               (''big'', \<lparr>command = ''node'', args = [''bigServer.js'']\<rparr>)];
        sched = [(''A'', Ready [\<lparr>name = ''ECHO'', description = None, inputSchema = JUndefined\<rparr>]),
                 (''big'', PushFailed (replicate 130000 \<lparr>name = ''BIG'', description = None, inputSchema = JUndefined\<rparr>)
                             ''Maximum call stack size exceeded'')];
        st = snd (connectToServers sched (new_client (Some cfg)))
    in fst (connectToServers sched (new_client (Some cfg))) = Return ()
       \<and> fst ` set (mcpClients st) = {''A''}
       \<and> fst ` set (toolToServerMap st) = {''ECHO'', ''BIG''}
       \<and> map tool_name (allTools st) = [''ECHO''])"
proof -
  let ?cfg = "[(''A'', \<lparr>command = ''node'', args = [''simpleServer.js'']\<rparr>),
               (''big'', \<lparr>command = ''node'', args = [''bigServer.js'']\<rparr>)]"
  let ?big = "replicate 130000 \<lparr>name = ''BIG'', description = None, inputSchema = JUndefined\<rparr>"
  let ?sched = "[(''A'', Ready [\<lparr>name = ''ECHO'', description = None, inputSchema = JUndefined\<rparr>]),
                 (''big'', PushFailed ?big ''Maximum call stack size exceeded'')]"
  have h: "schedule_of ?cfg ?sched"
    by (auto simp add: schedule_of_def)
  have r: "ready_servers ?sched = [''A'']"
    by (simp add: ready_servers_def)
  have k: "snd ` set (registrations ?sched) = {''ECHO'', ''BIG''}"
    by (simp add: registrations_Cons pairs_of_server image_Un)
  have n: "snapshot_names ?sched = [''ECHO'']"
    by (simp add: snapshot_names_def)
  show ?thesis
    unfolding Let_def
    using connect_result [OF h] connectToServers_state(1,2,4) [OF h]
    by (simp add: r k n)
qed

text \<open>
  Claim C10. Every server stored as an owner in \<open>toolToServerMap\<close> is said to be a key
  of \<open>mcpClients\<close> after connection establishment. At the same input the registry
  resolves \<^verbatim>\<open>BIG\<close> to the server \<open>big\<close>, which has no client.
\<close>

theorem failed_server_stays_owner:
  "(let cfg = [(''A'', \<lparr>command = ''node'', args = [''simpleServer.js'']\<rparr>),
               (''big'', \<lparr>command = ''node'', args = [''bigServer.js'']\<rparr>)];
        sched = [(''A'', Ready [\<lparr>name = ''ECHO'', description = None, inputSchema = JUndefined\<rparr>]),
                 (''big'', PushFailed (replicate 130000 \<lparr>name = ''BIG'', description = None, inputSchema = JUndefined\<rparr>)
                             ''Maximum call stack size exceeded'')];
        st = snd (connectToServers sched (new_client (Some cfg)))
    in map_of (toolToServerMap st) ''BIG'' = Some ''big''
       \<and> map_of (mcpClients st) ''big'' = None
       \<and> map_of (mcpClients st) ''A'' = Some (Client ''A''))"
proof -
  let ?cfg = "[(''A'', \<lparr>command = ''node'', args = [''simpleServer.js'']\<rparr>),
               (''big'', \<lparr>command = ''node'', args = [''bigServer.js'']\<rparr>)]"
  let ?big = "replicate 130000 \<lparr>name = ''BIG'', description = None, inputSchema = JUndefined\<rparr>"
  let ?sched = "[(''A'', Ready [\<lparr>name = ''ECHO'', description = None, inputSchema = JUndefined\<rparr>]),
                 (''big'', PushFailed ?big ''Maximum call stack size exceeded'')]"
  let ?s = "snd (connectToServers ?sched (new_client (Some ?cfg)))"
  have m: "''BIG'' \<in> name ` set ?big"
    by simp
  have "map_of (toolToServerMap ?s) ''BIG'' = Some ''big''"
    using m by (simp add: connectToServers_loaded Let_def settle_fields register_tools_owner)
  moreover have "map_of (mcpClients ?s) ''big'' = None" "map_of (mcpClients ?s) ''A'' = Some (Client ''A'')"
    by (simp_all add: connectToServers_loaded Let_def settle_fields delete_conv')
  ultimately show ?thesis
    unfolding Let_def by (intro conjI)
qed

section \<open>The dispatcher\<close>

text \<open>
  Claim C2. A remote call that completes with a response the tool server marked as
  errored is said to give a tool result with \<open>is_error = True\<close>. The tool servers of the
  repository mark an error with the field \<^verbatim>\<open>isError\<close>; the client reads the field
  \<^verbatim>\<open>error\<close> (line 290). For the error response of \<^verbatim>\<open>LIST_PROCESSES\<close> the tool result
  carries the error text and \<open>is_error = False\<close>.
\<close>

theorem invoke_isError_not_flagged:
  "fst (invoke
     (e\<lparr>callTool := \<lambda>tr c n a.
          Inr (JObj [(''content'', JArr [JObj [(''type'', JStr ''text''),
                                              (''text'', JStr ''Error listing processes: spawn ps ENOENT'')]]),
                     (''isError'', JBool True)])\<rparr>)
     (''toolu_1'', ''LIST_PROCESSES'', JObj [])
     \<lparr>serverConfigs = None, mcpClients = [(''process'', Client ''process'')], transports = [],
      allTools = [], toolToServerMap = [(''LIST_PROCESSES'', ''process'')], trace = []\<rparr>)
   = \<lparr>tool_use_id = ''toolu_1'', content = ''Error listing processes: spawn ps ENOENT'',
      is_error = False\<rparr>"
  by (simp add: invoke_def emit_def format_result_def text_of_block_def Let_def)

text \<open>
  Claim C5. For a tool name that has no owner in the registry, or whose owner has no
  client, the turn of the loop makes no remote call, throws nothing and gives a tool
  result with the error flag set and a message that names the tool.
\<close>

theorem invoke_unregistered:
  assumes "map_of (toolToServerMap st) toolName = None
           \<or> (\<exists>serverName. map_of (toolToServerMap st) toolName = Some serverName
                 \<and> map_of (mcpClients st) serverName = None)"
  shows "invoke e (toolUseId, toolName, input) st =
           (\<lparr>tool_use_id = toolUseId,
             content = ''Error: Tool '' @ quoted toolName
                         @ '' is not available or its server is disconnected.'',
             is_error = True\<rparr>,
            st\<lparr>trace := trace st @ [LogExecuting toolName toolUseId, ErrNoClient toolName]\<rparr>)"
  using assms by (auto simp add: invoke_def Let_def emit_def)

theorem invoke_unregistered_witness:
  "map_of (toolToServerMap (new_client None)) ''TIME'' = None
   \<and> fst (invoke \<lparr>messages_create = (\<lambda>tr req. Inl []), callTool = (\<lambda>tr c n a. Inl []), stringify = (\<lambda>v. [])\<rparr>
        (''toolu_1'', ''TIME'', JUndefined) (new_client None))
     = \<lparr>tool_use_id = ''toolu_1'',
        content = ''Error: Tool '' @ quoted ''TIME'' @ '' is not available or its server is disconnected.'',
        is_error = True\<rparr>"
proof -
  have h: "map_of (toolToServerMap (new_client None)) ''TIME'' = None"
    by simp
  show ?thesis
    using h invoke_unregistered [of "new_client None" "''TIME''", OF disjI1, OF h]
    by simp
qed

section \<open>The conversation\<close>

text \<open>
  Claim C4. When the first model response requests N tool calls (N at least 1), the
  dispatches and the backend calls of the query are, in this order: the first request;
  for each requested call, in the order of the requests, its announcement followed by the
  remote call on the client of the owner with the requested name and arguments (or by the
  report that there is no client); then exactly one more backend request. The results
  that request carries are, position by position, what the body of the loop returns for
  the request at that position, run after the requests before it; each has the id of its
  request; they are the last message of the request, and it offers no tools.
\<close>

theorem processQuery_tool_round:
  assumes "messages_create e (trace st) (initial_request q st) = Inr r"
    and "toolCalls_of (response_content r) \<noteq> []"
  shows "(let toolCalls = toolCalls_of (response_content r);
              st1 = emit (MessagesCreate (initial_request q st)) st;
              results = map (\<lambda>k. fst (invoke e (toolCalls ! k)
                                        (fold (\<lambda>tc s. snd (invoke e tc s)) (take k toolCalls) st1)))
                            [0..<length toolCalls];
              req = final_request q (response_content r) results
          in protocol_events (trace (snd (processQuery e q st))) =
               protocol_events (trace st) @ [MessagesCreate (initial_request q st)]
                 @ concat (map (dispatch_events st) toolCalls) @ [MessagesCreate req]
             \<and> length results = length toolCalls
             \<and> map tool_use_id results = map fst toolCalls
             \<and> last (messages req) = (User, ToolResults results)
             \<and> tools req = None)"
proof -
  let ?tcs = "toolCalls_of (response_content r)"
  let ?s1 = "emit (MessagesCreate (initial_request q st)) st"
  let ?results = "map (\<lambda>k. fst (invoke e (?tcs ! k)
                                  (fold (\<lambda>tc s. snd (invoke e tc s)) (take k ?tcs) ?s1)))
                      [0..<length ?tcs]"
  have res: "fst (run_tool_calls e ?tcs ?s1) = ?results"
    by (rule nth_equalityI) (simp_all add: run_tool_calls_nth)
  have ids: "map tool_use_id ?results = map fst ?tcs"
    unfolding res [symmetric] by (rule run_tool_calls_ids)
  have ev: "protocol_events (trace (snd (run_tool_calls e ?tcs ?s1))) =
      protocol_events (trace st) @ [MessagesCreate (initial_request q st)]
        @ concat (map (dispatch_events st) ?tcs)"
  proof -
    have "dispatch_events ?s1 = dispatch_events st"
      by (rule dispatch_events_cong) simp_all
    then show ?thesis
      by (simp add: run_tool_calls_protocol_events) (simp add: protocol_events_def)
  qed
  have tr: "protocol_events (trace (snd (processQuery e q st))) =
      protocol_events (trace (snd (run_tool_calls e ?tcs ?s1)))
        @ [MessagesCreate (final_request q (response_content r) ?results)]"
    unfolding res [symmetric]
    by (simp add: processQuery_tools [OF assms] Let_def split: sum.splits)
       (simp add: protocol_events_def)
  have fin: "last (messages (final_request q (response_content r) ?results)) = (User, ToolResults ?results)"
    "tools (final_request q (response_content r) ?results) = None"
    by (simp_all add: final_request_def)
  show ?thesis
    unfolding Let_def using ids ev tr fin by simp
qed

theorem processQuery_tool_round_witness:
  "(let content = [ToolUseBlock ''t1'' ''TIME'' JUndefined,
                   ToolUseBlock ''t2'' ''ECHO'' (JObj [(''message'', JStr ''hi'')])];
        e = \<lparr>messages_create = (\<lambda>tr req. Inr \<lparr>response_content = content, stop_reason = ''tool_use''\<rparr>),
              callTool = (\<lambda>tr c n a. Inr (JObj [(''content'', JArr [JObj [(''type'', JStr ''text''), (''text'', JStr n)]])])),
              stringify = (\<lambda>v. [])\<rparr>;
        st = \<lparr>serverConfigs = None,
              mcpClients = [(''echo'', Client ''echo''), (''clock'', Client ''clock'')],
              transports = [], allTools = [],
              toolToServerMap = [(''ECHO'', ''echo''), (''TIME'', ''clock'')], trace = []\<rparr>
    in messages_create e (trace st) (initial_request ''q'' st)
         = Inr \<lparr>response_content = content, stop_reason = ''tool_use''\<rparr>
       \<and> toolCalls_of content \<noteq> []
       \<and> protocol_events (trace (snd (processQuery e ''q'' st))) =
           [MessagesCreate (initial_request ''q'' st),
            LogExecuting ''TIME'' ''t1'',
            CallTool (Client ''clock'') ''TIME'' (JObj []),
            LogExecuting ''ECHO'' ''t2'',
            CallTool (Client ''echo'') ''ECHO'' (JObj [(''message'', JStr ''hi'')]),
            MessagesCreate (final_request ''q'' content
              [\<lparr>tool_use_id = ''t1'', content = ''TIME'', is_error = False\<rparr>,
               \<lparr>tool_use_id = ''t2'', content = ''ECHO'', is_error = False\<rparr>])])"
proof -
  let ?content = "[ToolUseBlock ''t1'' ''TIME'' JUndefined,
                   ToolUseBlock ''t2'' ''ECHO'' (JObj [(''message'', JStr ''hi'')])]"
  let ?e = "\<lparr>messages_create = (\<lambda>tr req. Inr \<lparr>response_content = ?content, stop_reason = ''tool_use''\<rparr>),
              callTool = (\<lambda>tr c n a. Inr (JObj [(''content'', JArr [JObj [(''type'', JStr ''text''), (''text'', JStr n)]])])),
              stringify = (\<lambda>v. [])\<rparr>"
  let ?s = "\<lparr>serverConfigs = None,
              mcpClients = [(''echo'', Client ''echo''), (''clock'', Client ''clock'')],
              transports = [], allTools = [],
              toolToServerMap = [(''ECHO'', ''echo''), (''TIME'', ''clock'')], trace = []\<rparr>"
  let ?r = "\<lparr>response_content = ?content, stop_reason = ''tool_use''\<rparr>"
  let ?s1 = "emit (MessagesCreate (initial_request ''q'' ?s)) ?s"
  have h1: "messages_create ?e (trace ?s) (initial_request ''q'' ?s) = Inr ?r"
    by simp
  have h2: "toolCalls_of (response_content ?r) \<noteq> []"
    by simp
  have tcs: "toolCalls_of (response_content ?r) =
               [(''t1'', ''TIME'', JUndefined), (''t2'', ''ECHO'', JObj [(''message'', JStr ''hi'')])]"
    by simp
  have res: "map (\<lambda>k. fst (invoke ?e ([(''t1'', ''TIME'', JUndefined),
                                         (''t2'', ''ECHO'', JObj [(''message'', JStr ''hi'')])] ! k)
                 (fold (\<lambda>tc s. snd (invoke ?e tc s))
                        (take k [(''t1'', ''TIME'', JUndefined),
                                 (''t2'', ''ECHO'', JObj [(''message'', JStr ''hi'')])]) ?s1)))
               [0..<length [(''t1'', ''TIME'', JUndefined),
                            (''t2'', ''ECHO'', JObj [(''message'', JStr ''hi'')])]] =
              [\<lparr>tool_use_id = ''t1'', content = ''TIME'', is_error = False\<rparr>,
               \<lparr>tool_use_id = ''t2'', content = ''ECHO'', is_error = False\<rparr>]"
    by (simp add: invoke_def format_result_def text_of_block_def Let_def upt_rec)
  have ev: "concat (map (dispatch_events ?s)
               [(''t1'', ''TIME'', JUndefined), (''t2'', ''ECHO'', JObj [(''message'', JStr ''hi'')])]) =
             [LogExecuting ''TIME'' ''t1'', CallTool (Client ''clock'') ''TIME'' (JObj []),
              LogExecuting ''ECHO'' ''t2'',
              CallTool (Client ''echo'') ''ECHO'' (JObj [(''message'', JStr ''hi'')])]"
    by (simp add: dispatch_events_def owner_client_def)
  have "protocol_events (trace (snd (processQuery ?e ''q'' ?s))) =
          protocol_events (trace ?s) @ [MessagesCreate (initial_request ''q'' ?s)]
            @ [LogExecuting ''TIME'' ''t1'', CallTool (Client ''clock'') ''TIME'' (JObj []),
               LogExecuting ''ECHO'' ''t2'',
               CallTool (Client ''echo'') ''ECHO'' (JObj [(''message'', JStr ''hi'')])]
            @ [MessagesCreate (final_request ''q'' (response_content ?r)
                 [\<lparr>tool_use_id = ''t1'', content = ''TIME'', is_error = False\<rparr>,
                  \<lparr>tool_use_id = ''t2'', content = ''ECHO'', is_error = False\<rparr>])]"
    using processQuery_tool_round [OF h1 h2] unfolding Let_def tcs res ev by (rule conjunct1)
  then show ?thesis
    using h1 h2 by (simp add: Let_def protocol_events_def)
qed

text \<open>
  Claim C7 as stated says the answer is the concatenation of the text segments. For
  the segments \<^verbatim>\<open>a\<close>, \<^verbatim>\<open>b\<close> and a single space the answer is \<^verbatim>\<open>a\<close>, a line feed and
  \<^verbatim>\<open>b\<close>, which is not their concatenation.
\<close>

theorem processQuery_concatenation_counterexample:
  "fst (processQuery
          \<lparr>messages_create = (\<lambda>tr req. Inr \<lparr>response_content = [TextBlock ''a'', TextBlock ''b'', TextBlock '' ''],
                                              stop_reason = ''end_turn''\<rparr>),
           callTool = (\<lambda>tr c n a. Inl []), stringify = (\<lambda>v. [])\<rparr>
          ''q'' (new_client None)) = ''a'' @ newline @ ''b''
   \<and> ''a'' @ newline @ ''b'' \<noteq> concat [''a'', ''b'', '' '']"
  by (simp add: processQuery_def Let_def trim_def newline_def is_space_def)

text \<open>
  Claim C7, as amended. When the first model response requests no tool call, the query
  ends after that one backend request, with no turn of the tool loop: the answer is the
  text segments joined by line feeds with the white space at both ends trimmed, or the
  fixed placeholder when that text is empty.
\<close>

theorem processQuery_no_tool_calls:
  assumes "messages_create e (trace st) (initial_request q st) = Inr r"
    and "toolCalls_of (response_content r) = []"
  shows "fst (processQuery e q st) =
           (if trim (join newline (textContents_of (response_content r))) = [] then placeholder
            else trim (join newline (textContents_of (response_content r))))
         \<and> trace (snd (processQuery e q st)) =
             trace st @ [MessagesCreate (initial_request q st)]
               @ (if stop_reason r = ''tool_use'' then [WarnStopReason] else [])"
  using assms by (simp add: processQuery_def Let_def trim_append_newline)

theorem processQuery_no_tool_calls_witness:
  "(let e = \<lparr>messages_create = (\<lambda>tr req. Inr \<lparr>response_content = [TextBlock ''It is '', TextBlock ''noon. ''],
                                                   stop_reason = ''end_turn''\<rparr>),
              callTool = (\<lambda>tr c n a. Inl []), stringify = (\<lambda>v. [])\<rparr>;
        r = \<lparr>response_content = [TextBlock ''It is '', TextBlock ''noon. ''], stop_reason = ''end_turn''\<rparr>
    in messages_create e (trace (new_client None)) (initial_request ''q'' (new_client None)) = Inr r
       \<and> toolCalls_of (response_content r) = []
       \<and> fst (processQuery e ''q'' (new_client None)) = ''It is '' @ newline @ ''noon.''
       \<and> trace (snd (processQuery e ''q'' (new_client None)))
            = [MessagesCreate (initial_request ''q'' (new_client None))])"
proof -
  let ?r = "\<lparr>response_content = [TextBlock ''It is '', TextBlock ''noon. ''], stop_reason = ''end_turn''\<rparr>"
  let ?e = "\<lparr>messages_create = (\<lambda>tr req. Inr ?r),
              callTool = (\<lambda>tr c n a. Inl []), stringify = (\<lambda>v. [])\<rparr>"
  have h1: "messages_create ?e (trace (new_client None)) (initial_request ''q'' (new_client None)) = Inr ?r"
    by simp
  have h2: "toolCalls_of (response_content ?r) = []"
    by simp
  have t: "trim (join newline (textContents_of (response_content ?r))) = ''It is '' @ newline @ ''noon.''"
    by (simp add: trim_def newline_def is_space_def)
  show ?thesis
    using h1 h2 processQuery_no_tool_calls [OF h1 h2] unfolding t
    by (simp add: Let_def newline_def)
qed

text \<open>
  Claim C9. The backend requests a query makes name these models, in order: the first
  request \<^verbatim>\<open>claude-3-5-sonnet-20240620\<close>, and the request that carries the tool results
  (made only when the first response holds tool calls) \<^verbatim>\<open>claude-3-opus-20240229\<close>; the
  two identifiers differ.
\<close>

theorem processQuery_models:
  "backend_models (trace (snd (processQuery e q st))) =
     backend_models (trace st) @
       (case messages_create e (trace st) (initial_request q st) of
          Inl err \<Rightarrow> [''claude-3-5-sonnet-20240620'']
        | Inr r \<Rightarrow> if toolCalls_of (response_content r) = [] then [''claude-3-5-sonnet-20240620'']
                   else [''claude-3-5-sonnet-20240620'', ''claude-3-opus-20240229''])
   \<and> ''claude-3-5-sonnet-20240620'' \<noteq> ''claude-3-opus-20240229''"
proof (cases "messages_create e (trace st) (initial_request q st)")
  case (Inl err)
  then show ?thesis
    by (simp add: processQuery_failed initial_request_def)
next
  case (Inr r)
  show ?thesis
  proof (cases "toolCalls_of (response_content r) = []")
    case True
    with Inr show ?thesis
      by (simp add: processQuery_answered initial_request_def)
  next
    case False
    with Inr show ?thesis
      by (simp add: processQuery_tools Let_def split: sum.splits)
         (simp add: initial_request_def final_request_def)
  qed
qed

theorem processQuery_models_witness:
  "backend_models (trace (snd (processQuery
       \<lparr>messages_create = (\<lambda>tr req. Inr \<lparr>response_content = [ToolUseBlock ''t1'' ''TIME'' JUndefined],
                                            stop_reason = ''tool_use''\<rparr>),
        callTool = (\<lambda>tr c n a. Inl ''Connection closed''), stringify = (\<lambda>v. [])\<rparr>
       ''q'' (new_client None))))
   = [''claude-3-5-sonnet-20240620'', ''claude-3-opus-20240229'']"
  using processQuery_models [of
       "\<lparr>messages_create = (\<lambda>tr req. Inr \<lparr>response_content = [ToolUseBlock ''t1'' ''TIME'' JUndefined],
                                            stop_reason = ''tool_use''\<rparr>),
        callTool = (\<lambda>tr c n a. Inl ''Connection closed''), stringify = (\<lambda>v. [])\<rparr>"
       "''q''" "new_client None"]
  by simp

section \<open>Startup\<close>

text \<open>
  What \<^verbatim>\<open>main\<close> does with the two ways startup can fail once the file exists and the
  credential is set: an exception of \<^verbatim>\<open>loadConfig\<close> is logged and the process exits with
  code 0 after the cleanup; \<^verbatim>\<open>process.exit\<close> inside \<^verbatim>\<open>connectToServers\<close> ends the process
  at once with its code, before \<^verbatim>\<open>chatLoop\<close>.
\<close>

lemma main_loadConfig_throws:
  assumes "file_exists su" and "api_key su = Some k" and "k \<noteq> []"
    and "loadConfig su (new_client None) = (Throw err, st1)"
  shows "main e su = finish (emit (ErrUnhandled err) st1)"
  using assms by (simp add: main_def)

lemma main_connect_exits:
  assumes "file_exists su" and "api_key su = Some k" and "k \<noteq> []"
    and "loadConfig su (new_client None) = (Return (), st1)"
    and "connectToServers (schedule su) st1 = (Exit n, st2)"
  shows "main e su = (Exited n, trace st2)"
  using assms by (simp add: main_def)

text \<open>
  Claim C3. A start with an unreadable or schema-invalid configuration file is said to
  end with a non-zero exit code before any query is accepted. \<^verbatim>\<open>loadConfig\<close> throws
  inside the \<^verbatim>\<open>try\<close> of \<^verbatim>\<open>main\<close>, whose \<^verbatim>\<open>finally\<close> block always calls
  \<^verbatim>\<open>process.exit(0)\<close>: for a file holding \<^verbatim>\<open>{}\<close> and for a file that cannot be read, no
  query is accepted (the trace holds the error line only), and the exit code is 0.
\<close>

theorem main_invalid_config_exits_zero:
  "main e \<lparr>file_exists = True, api_key = Some ''sk-test'', read_file = Inr ''{}'',
           json_parse = (\<lambda>s. Inr (JObj [])), schedule = [], stdin_lines = [''hello'', ''quit'']\<rparr>
     = (Exited 0, [ErrUnhandled ''ZodError''])
   \<and> main e \<lparr>file_exists = True, api_key = Some ''sk-test'', read_file = Inl ''EACCES: permission denied'',
           json_parse = (\<lambda>s. Inr (JObj [])), schedule = [], stdin_lines = [''hello'', ''quit'']\<rparr>
     = (Exited 0, [ErrUnhandled ''EACCES: permission denied''])"
  by (simp add: main_def loadConfig_def finish_def cleanup_def emit_def new_client_def)

end
